theory Spec2Isabelle
  imports Main "HOL-Library.Sublist"
begin

section \<open>The typed-value encoder (package ctyencode)\<close>

text \<open>
  The encoder turns a Go value, seen through package reflect, into a value of the
  go-cty type system, directed by a target type. This theory embeds the functions of
  the encoder one by one, under their own names, and proves the properties the
  specification states about them.

  Three things the encoder consumes are not part of it: the reflect package, the go-cty
  value model and the struct-tag resolver \<^verbatim>\<open>rivertags\<close>. The first two are
  modelled by datatypes (what reflect shows of a Go value; the constructors of cty
  values and types), the operations \<^verbatim>\<open>convert.Convert\<close> and
  \<^verbatim>\<open>rivertags.Get\<close> are parameters of the encoder.
\<close>

subsection \<open>Go types and kinds as reflect reports them\<close>

datatype kind =
    reflect_Invalid | reflect_Bool
  | reflect_Int | reflect_Int8 | reflect_Int16 | reflect_Int32 | reflect_Int64
  | reflect_Uint | reflect_Uint8 | reflect_Uint16 | reflect_Uint32 | reflect_Uint64
  | reflect_Uintptr
  | reflect_Float32 | reflect_Float64 | reflect_Complex64 | reflect_Complex128
  | reflect_Array | reflect_Chan | reflect_Func | reflect_Interface | reflect_Map
  | reflect_Ptr | reflect_Slice | reflect_String | reflect_Struct
  | reflect_UnsafePointer

datatype int_size = I | I8 | I16 | I32 | I64

datatype uint_size = U | U8 | U16 | U32 | U64 | Uptr

datatype float_size = F32 | F64

datatype other_kind = Complex64 | Complex128 | Chan | Func | UnsafePointer

text \<open>
  A Go type, as far as the encoder looks at it: its kind, the key type of a map type,
  the element type of a pointer type, and its identity for \<^verbatim>\<open>AssignableTo\<close>.
  The four struct types the encoder knows by name (\<^verbatim>\<open>cty.Value\<close>,
  \<^verbatim>\<open>big.Int\<close>, \<^verbatim>\<open>big.Float\<close>, \<^verbatim>\<open>set.Set\<close>) are
  constructors of their own, named as the package variables that hold them. Every other
  struct type is identified by its name.
\<close>

datatype go_type =
    bool_t
  | int_t int_size
  | uint_t uint_size
  | float_t float_size
  | string_t
  | ptr_t go_type
  | interface_t
  | slice_t go_type
  | array_t nat go_type
  | map_t go_type go_type
  | struct_t string
  | valueType
  | bigIntType
  | bigFloatType
  | setType
  | other_t other_kind string

fun int_kind :: "int_size \<Rightarrow> kind" where
  "int_kind I = reflect_Int"
| "int_kind I8 = reflect_Int8"
| "int_kind I16 = reflect_Int16"
| "int_kind I32 = reflect_Int32"
| "int_kind I64 = reflect_Int64"

fun uint_kind :: "uint_size \<Rightarrow> kind" where
  "uint_kind U = reflect_Uint"
| "uint_kind U8 = reflect_Uint8"
| "uint_kind U16 = reflect_Uint16"
| "uint_kind U32 = reflect_Uint32"
| "uint_kind U64 = reflect_Uint64"
| "uint_kind Uptr = reflect_Uintptr"

fun float_kind :: "float_size \<Rightarrow> kind" where
  "float_kind F32 = reflect_Float32"
| "float_kind F64 = reflect_Float64"

fun other_Kind :: "other_kind \<Rightarrow> kind" where
  "other_Kind Complex64 = reflect_Complex64"
| "other_Kind Complex128 = reflect_Complex128"
| "other_Kind Chan = reflect_Chan"
| "other_Kind Func = reflect_Func"
| "other_Kind UnsafePointer = reflect_UnsafePointer"

text \<open>\<^verbatim>\<open>reflect.Type.Kind\<close>.\<close>

fun type_Kind :: "go_type \<Rightarrow> kind" where
  "type_Kind bool_t = reflect_Bool"
| "type_Kind (int_t s) = int_kind s"
| "type_Kind (uint_t s) = uint_kind s"
| "type_Kind (float_t s) = float_kind s"
| "type_Kind string_t = reflect_String"
| "type_Kind (ptr_t t) = reflect_Ptr"
| "type_Kind interface_t = reflect_Interface"
| "type_Kind (slice_t t) = reflect_Slice"
| "type_Kind (array_t n t) = reflect_Array"
| "type_Kind (map_t k t) = reflect_Map"
| "type_Kind (struct_t n) = reflect_Struct"
| "type_Kind valueType = reflect_Struct"
| "type_Kind bigIntType = reflect_Struct"
| "type_Kind bigFloatType = reflect_Struct"
| "type_Kind setType = reflect_Struct"
| "type_Kind (other_t k n) = other_Kind k"

text \<open>
  \<^verbatim>\<open>reflect.Type.AssignableTo\<close>, on the types above: a type is assignable to itself
  and to the empty interface type. (Go's further rules concern unnamed types and method
  sets, which \<open>go_type\<close> does not distinguish.)
\<close>

definition AssignableTo :: "go_type \<Rightarrow> go_type \<Rightarrow> bool" where
  "AssignableTo t u = (t = u \<or> u = interface_t)"

subsection \<open>The cty type system\<close>

text \<open>
  \<open>NilType\<close> is the zero \<^verbatim>\<open>cty.Type{}\<close>, which is none of the ten type constructors.
  An object type holds its attribute types in a Go map; the association list gives them
  in the order in which a \<^verbatim>\<open>range\<close> over that map visits them, which Go leaves open:
  every theorem below holds for every order.
\<close>

datatype cty_type =
    NilType
  | cty_Bool
  | cty_Number
  | cty_String
  | DynamicPseudoType
  | cty_List cty_type
  | cty_Map cty_type
  | cty_Set cty_type
  | cty_Object "(string \<times> cty_type) list"
  | cty_Tuple "cty_type list"
  | cty_Capsule string go_type

fun EncapsulatedType :: "cty_type \<Rightarrow> go_type" where
  "EncapsulatedType (cty_Capsule n t) = t"
| "EncapsulatedType _ = interface_t"

text \<open>
  Numbers: a \<^verbatim>\<open>float64\<close> and a \<^verbatim>\<open>big.Float\<close> are a mantissa and a binary
  exponent (\<open>m * 2 ^ e\<close>); infinities and NaN are left out.
\<close>

datatype float64 = Float64 int int

datatype big_Float = Big_Float int int

subsection \<open>cty values and Go values\<close>

text \<open>
  A cty value is built by the constructor functions of package cty, which are the
  constructors here: two values are equal when they are built the same way. What the
  functions of cty check on their arguments is not modelled (\<^verbatim>\<open>cty.ListVal\<close>, for
  one, panics on elements of different types, which only a list of the dynamic type can
  give it). A capsule value holds a Go value, and a Go value may be a
  \<^verbatim>\<open>cty.Value\<close>, so the two types are defined together.

  \<open>native\<close> is a Go value as reflect classifies it, one constructor for each shape the
  encoder tells apart:
  \<^item> a nil pointer, interface, slice or map is \<open>None\<close>;
  \<^item> a pointer and a slice carry their element type, a map its key and element types;
  \<^item> the entries of a map are listed in the order \<^verbatim>\<open>MapKeys\<close> returns them;
  \<^item> a struct has its fields in declaration order;
  \<^item> the members of a \<^verbatim>\<open>set.Set\<close> are what \<^verbatim>\<open>Values()\<close> returns, each an
    \<^verbatim>\<open>interface{}\<close> (\<open>None\<close> when nil).
\<close>

datatype cty_value =
    NullVal cty_type
  | BoolVal bool
  | NumberIntVal int
  | NumberUIntVal nat
  | NumberFloatVal float64
  | NumberVal big_Float
  | StringVal string
  | ListVal "cty_value list"
  | ListValEmpty cty_type
  | MapVal "(string \<times> cty_value) list"
  | MapValEmpty cty_type
  | SetVal "cty_value list"
  | SetValEmpty cty_type
  | ObjectVal "(string \<times> cty_value) list"
  | TupleVal "cty_value list"
  | CapsuleVal cty_type native
and native =
    BoolV bool
  | IntV int_size int
  | UintV uint_size nat
  | FloatV float_size float64
  | StringV string
  | PtrV go_type "native option"
  | IfaceV "native option"
  | SliceV go_type "native list option"
  | ArrayV go_type "native list"
  | MapV go_type go_type "(native \<times> native) list option"
  | StructV string "native list"
  | CtyV cty_value
  | BigIntV int
  | BigFloatV big_Float
  | SetV "native option list"
  | OtherV other_kind string

definition EmptyObjectVal :: cty_value where
  "EmptyObjectVal = ObjectVal []"

definition EmptyTupleVal :: cty_value where
  "EmptyTupleVal = TupleVal []"

text \<open>\<^verbatim>\<open>cty.Value.IsNull\<close>.\<close>

fun IsNull :: "cty_value \<Rightarrow> bool" where
  "IsNull (NullVal t) = True"
| "IsNull _ = False"

subsection \<open>Values under reflection\<close>

text \<open>
  A \<^verbatim>\<open>reflect.Value\<close> is the zero Value (\<^verbatim>\<open>reflect.Value{}\<close>, of kind Invalid)
  or a Go value together with the flag that \<^verbatim>\<open>CanAddr\<close> reports. The operations
  below are the methods of \<^verbatim>\<open>reflect.Value\<close> that the encoder calls; each sets the
  flag as reflect does. A method that panics in Go on a value of the wrong kind has no
  equation for it here; the encoder calls it only behind a test of the kind.
\<close>

datatype reflect_Value = zero_Value | Value bool native

text \<open>\<^verbatim>\<open>reflect.ValueOf\<close>, of an \<^verbatim>\<open>interface{}\<close> that is nil or holds a Go value.\<close>

fun ValueOf :: "native option \<Rightarrow> reflect_Value" where
  "ValueOf None = zero_Value"
| "ValueOf (Some v) = Value False v"

fun IsValid :: "reflect_Value \<Rightarrow> bool" where
  "IsValid zero_Value = False"
| "IsValid (Value a v) = True"

fun native_Type :: "native \<Rightarrow> go_type" where
  "native_Type (BoolV b) = bool_t"
| "native_Type (IntV s n) = int_t s"
| "native_Type (UintV s n) = uint_t s"
| "native_Type (FloatV s x) = float_t s"
| "native_Type (StringV s) = string_t"
| "native_Type (PtrV t p) = ptr_t t"
| "native_Type (IfaceV p) = interface_t"
| "native_Type (SliceV t xs) = slice_t t"
| "native_Type (ArrayV t xs) = array_t (length xs) t"
| "native_Type (MapV k t es) = map_t k t"
| "native_Type (StructV n fs) = struct_t n"
| "native_Type (CtyV v) = valueType"
| "native_Type (BigIntV n) = bigIntType"
| "native_Type (BigFloatV x) = bigFloatType"
| "native_Type (SetV xs) = setType"
| "native_Type (OtherV k n) = other_t k n"

text \<open>\<^verbatim>\<open>Value.Type\<close>; it panics on the zero Value.\<close>

fun Value_Type :: "reflect_Value \<Rightarrow> go_type" where
  "Value_Type (Value a v) = native_Type v"

fun Kind :: "reflect_Value \<Rightarrow> kind" where
  "Kind zero_Value = reflect_Invalid"
| "Kind (Value a v) = type_Kind (native_Type v)"

fun CanAddr :: "reflect_Value \<Rightarrow> bool" where
  "CanAddr zero_Value = False"
| "CanAddr (Value a v) = a"

fun IsNil :: "reflect_Value \<Rightarrow> bool" where
  "IsNil (Value a (PtrV t p)) = (p = None)"
| "IsNil (Value a (IfaceV p)) = (p = None)"
| "IsNil (Value a (SliceV t xs)) = (xs = None)"
| "IsNil (Value a (MapV k t es)) = (es = None)"

text \<open>
  \<^verbatim>\<open>Value.Elem\<close>: what a non-nil pointer points to is addressable, what a non-nil
  interface holds is not. Of a nil pointer or interface it is the zero Value.
\<close>

fun Elem :: "reflect_Value \<Rightarrow> reflect_Value" where
  "Elem (Value a (PtrV t (Some v))) = Value True v"
| "Elem (Value a (PtrV t None)) = zero_Value"
| "Elem (Value a (IfaceV (Some v))) = Value False v"
| "Elem (Value a (IfaceV None)) = zero_Value"

fun Len :: "reflect_Value \<Rightarrow> nat" where
  "Len (Value a (SliceV t xs)) = (case xs of None \<Rightarrow> 0 | Some ys \<Rightarrow> length ys)"
| "Len (Value a (ArrayV t xs)) = length xs"
| "Len (Value a (MapV k t es)) = (case es of None \<Rightarrow> 0 | Some ys \<Rightarrow> length ys)"
| "Len (Value a (StringV s)) = length s"

text \<open>
  \<^verbatim>\<open>Value.Index\<close>, for an index below \<^verbatim>\<open>Len\<close> (Go panics on any other): an
  element of a slice is addressable, an element of an array is if the array is.
\<close>

fun Index :: "reflect_Value \<Rightarrow> nat \<Rightarrow> reflect_Value" where
  "Index (Value a (SliceV t (Some xs))) i = Value True (xs ! i)"
| "Index (Value a (ArrayV t xs)) i = Value a (xs ! i)"

fun NumField :: "reflect_Value \<Rightarrow> nat" where
  "NumField (Value a (StructV n fs)) = length fs"

text \<open>\<^verbatim>\<open>Value.Field\<close>, for an index below \<^verbatim>\<open>NumField\<close>.\<close>

fun Field :: "reflect_Value \<Rightarrow> nat \<Rightarrow> reflect_Value" where
  "Field (Value a (StructV n fs)) i = Value a (fs ! i)"

fun MapKeys :: "reflect_Value \<Rightarrow> reflect_Value list" where
  "MapKeys (Value a (MapV k t es)) =
     (case es of None \<Rightarrow> [] | Some ys \<Rightarrow> map (\<lambda>(key, v). Value False key) ys)"

text \<open>\<^verbatim>\<open>Value.MapIndex\<close>: the zero Value when the key is not in the map.\<close>

fun MapIndex :: "reflect_Value \<Rightarrow> reflect_Value \<Rightarrow> reflect_Value" where
  "MapIndex (Value a (MapV k t es)) (Value b key) =
     (case es of None \<Rightarrow> zero_Value
      | Some ys \<Rightarrow> (case map_of ys key of None \<Rightarrow> zero_Value | Some v \<Rightarrow> Value False v))"

text \<open>
  \<^verbatim>\<open>Value.String\<close>: the string itself for a value of kind String. For any other kind
  reflect prints a placeholder naming the type, shortened here; the encoder asks only
  after checking that the key kind is String.
\<close>

fun Value_String :: "reflect_Value \<Rightarrow> string" where
  "Value_String (Value a (StringV s)) = s"
| "Value_String _ = ''<Value>''"

fun Value_Bool :: "reflect_Value \<Rightarrow> bool" where
  "Value_Bool (Value a (BoolV b)) = b"

fun Value_Int :: "reflect_Value \<Rightarrow> int" where
  "Value_Int (Value a (IntV s n)) = n"

fun Value_Uint :: "reflect_Value \<Rightarrow> nat" where
  "Value_Uint (Value a (UintV s n)) = n"

fun Value_Float :: "reflect_Value \<Rightarrow> float64" where
  "Value_Float (Value a (FloatV s x)) = x"

text \<open>\<^verbatim>\<open>Value.Interface\<close>: the Go value itself.\<close>

fun Interface :: "reflect_Value \<Rightarrow> native" where
  "Interface (Value a v) = v"

text \<open>\<^verbatim>\<open>Value.Addr\<close>, of an addressable value: a pointer to it.\<close>

fun Addr :: "reflect_Value \<Rightarrow> reflect_Value" where
  "Addr (Value a v) = Value False (PtrV (native_Type v) (Some v))"

text \<open>\<^verbatim>\<open>Type.Key\<close> of a map type and \<^verbatim>\<open>Type.Elem\<close> of a pointer type.\<close>

fun type_Key :: "go_type \<Rightarrow> go_type" where
  "type_Key (map_t k t) = k"

fun type_Elem :: "go_type \<Rightarrow> go_type" where
  "type_Elem (ptr_t t) = t"
| "type_Elem (slice_t t) = t"
| "type_Elem (array_t n t) = t"
| "type_Elem (map_t k t) = t"

text \<open>\<^verbatim>\<open>(&big.Float{}).SetInt\<close>: the integer as a float, exactly.\<close>

definition SetInt :: "int \<Rightarrow> big_Float" where
  "SetInt n = Big_Float n 0"

subsection \<open>Paths and errors\<close>

text \<open>
  A \<^verbatim>\<open>cty.Path\<close> is a slice of steps. \<open>nil_step\<close> is the \<^verbatim>\<open>cty.PathStep(nil)\<close>
  that a handler appends before its loop overwrites it.
\<close>

datatype PathStep = nil_step | IndexStep cty_value | GetAttrStep string

type_synonym Path = "PathStep list"

text \<open>
  The message of an error, one constructor for each format string of the encoder, with
  the values it prints.
\<close>

datatype cause =
    unsupported_target_type cty_type
  | cant_convert_kind kind cty_type
  | cant_convert_type go_type cty_type
  | map_key_type_must_be_string go_type
  | wrong_number_of_elements nat nat
  | wrong_number_of_struct_fields nat nat
  | capsule_must_be_addressable cty_type
  | capsule_not_compatible go_type cty_type
  | dynamic_only_Value_type go_type
  | dynamic_only_Value_kind kind
  | unsuitable_value string

text \<open>
  What the encoder returns in place of a value: a \<^verbatim>\<open>cty.PathError\<close>, or a Go panic
  where the model has one (a type assertion that fails, a field index out of range).
\<close>

datatype encode_error = PathError Path cause | Panic string

text \<open>\<^verbatim>\<open>Path.NewErrorf\<close> copies the path into the error.\<close>

definition NewErrorf :: "Path \<Rightarrow> cause \<Rightarrow> encode_error" where
  "NewErrorf path c = PathError path c"

text \<open>
  Every function of the encoder returns \<^verbatim>\<open>(cty.Value, error)\<close>: here
  \<open>Inr\<close> the value or \<open>Inl\<close> the error. Its result is paired with the content
  of its local variable \<^verbatim>\<open>path\<close> at the moment it returns. Go passes the slice by
  value, so the caller does not see that content; it is kept here so that the way a
  handler grows and truncates its path can be stated.
\<close>

type_synonym result = "(encode_error + cty_value) \<times> Path"

subsection \<open>What the encoder consumes\<close>

text \<open>
  \<open>Convert\<close> is \<^verbatim>\<open>convert.Convert\<close> of go-cty, returning the converted value or
  the message of its error. \<open>rivertags_Get\<close> is \<^verbatim>\<open>rivertags.Get\<close> followed by the
  lookup \<^verbatim>\<open>attrFields.Get(k)\<close>: for a struct type and an attribute name, the index
  of the field that carries the attribute, if there is one.
\<close>

record deps =
  Convert :: "cty_value \<Rightarrow> cty_type \<Rightarrow> string + cty_value"
  rivertags_Get :: "go_type \<Rightarrow> string \<Rightarrow> nat option"

subsection \<open>Kinds of values\<close>

lemma int_kind_neq [simp]:
  "int_kind s \<noteq> reflect_Invalid" "int_kind s \<noteq> reflect_Bool" "int_kind s \<noteq> reflect_Array"
  "int_kind s \<noteq> reflect_Interface" "int_kind s \<noteq> reflect_Map" "int_kind s \<noteq> reflect_Ptr"
  "int_kind s \<noteq> reflect_Slice" "int_kind s \<noteq> reflect_String" "int_kind s \<noteq> reflect_Struct"
  by (cases s; simp)+

lemma uint_kind_neq [simp]:
  "uint_kind s \<noteq> reflect_Invalid" "uint_kind s \<noteq> reflect_Bool" "uint_kind s \<noteq> reflect_Array"
  "uint_kind s \<noteq> reflect_Interface" "uint_kind s \<noteq> reflect_Map" "uint_kind s \<noteq> reflect_Ptr"
  "uint_kind s \<noteq> reflect_Slice" "uint_kind s \<noteq> reflect_String" "uint_kind s \<noteq> reflect_Struct"
  by (cases s; simp)+

lemma float_kind_neq [simp]:
  "float_kind s \<noteq> reflect_Invalid" "float_kind s \<noteq> reflect_Bool" "float_kind s \<noteq> reflect_Array"
  "float_kind s \<noteq> reflect_Interface" "float_kind s \<noteq> reflect_Map" "float_kind s \<noteq> reflect_Ptr"
  "float_kind s \<noteq> reflect_Slice" "float_kind s \<noteq> reflect_String" "float_kind s \<noteq> reflect_Struct"
  by (cases s; simp)+

lemma other_Kind_neq [simp]:
  "other_Kind s \<noteq> reflect_Invalid" "other_Kind s \<noteq> reflect_Bool" "other_Kind s \<noteq> reflect_Array"
  "other_Kind s \<noteq> reflect_Interface" "other_Kind s \<noteq> reflect_Map" "other_Kind s \<noteq> reflect_Ptr"
  "other_Kind s \<noteq> reflect_Slice" "other_Kind s \<noteq> reflect_String" "other_Kind s \<noteq> reflect_Struct"
  by (cases s; simp)+

lemma Kind_Invalid_iff: "Kind val = reflect_Invalid \<longleftrightarrow> val = zero_Value"
proof (cases val)
  case zero_Value
  then show ?thesis by simp
next
  case (Value a v)
  then show ?thesis by (cases v) simp_all
qed

lemma Kind_Ptr_iff: "Kind val = reflect_Ptr \<longleftrightarrow> (\<exists>a t p. val = Value a (PtrV t p))"
proof (cases val)
  case zero_Value
  then show ?thesis by simp
next
  case (Value a v)
  then show ?thesis by (cases v) simp_all
qed

lemma Kind_Interface_iff: "Kind val = reflect_Interface \<longleftrightarrow> (\<exists>a p. val = Value a (IfaceV p))"
proof (cases val)
  case zero_Value
  then show ?thesis by simp
next
  case (Value a v)
  then show ?thesis by (cases v) simp_all
qed

subsection \<open>unwrapPointer\<close>

text \<open>
  The loop runs while the kind is Ptr or Interface: a nil one ends it with the zero
  Value, any other is replaced by its \<^verbatim>\<open>Elem\<close>. Each round takes one constructor
  off the Go value, which is why the loop ends.
\<close>

function unwrapPointer :: "reflect_Value \<Rightarrow> reflect_Value" where
  "unwrapPointer val =
     (if Kind val = reflect_Ptr \<or> Kind val = reflect_Interface then
        if IsNil val then zero_Value else unwrapPointer (Elem val)
      else val)"
  by pat_completeness auto

termination unwrapPointer
proof (relation "measure (\<lambda>val. case val of zero_Value \<Rightarrow> 0 | Value a v \<Rightarrow> size v)")
  show "wf (measure (\<lambda>val. case val of zero_Value \<Rightarrow> 0 | Value a v \<Rightarrow> size v))"
    by simp
next
  fix val
  assume k: "Kind val = reflect_Ptr \<or> Kind val = reflect_Interface" and n: "\<not> IsNil val"
  from k n obtain a b t v
    where "val = Value a (PtrV t (Some v)) \<or> val = Value b (IfaceV (Some v))"
    by (auto simp: Kind_Ptr_iff Kind_Interface_iff)
  then show "(Elem val, val) \<in> measure (\<lambda>val. case val of zero_Value \<Rightarrow> 0 | Value a v \<Rightarrow> size v)"
    by auto
qed

declare unwrapPointer.simps [simp del]

lemma unwrapPointer_zero [simp]: "unwrapPointer zero_Value = zero_Value"
  by (simp add: unwrapPointer.simps)

lemma unwrapPointer_Ptr [simp]:
  "unwrapPointer (Value a (PtrV t None)) = zero_Value"
  "unwrapPointer (Value a (PtrV t (Some v))) = unwrapPointer (Value True v)"
  by (simp_all add: unwrapPointer.simps [of "Value a (PtrV t p)" for p])

lemma unwrapPointer_Iface [simp]:
  "unwrapPointer (Value a (IfaceV None)) = zero_Value"
  "unwrapPointer (Value a (IfaceV (Some v))) = unwrapPointer (Value False v)"
  by (simp_all add: unwrapPointer.simps [of "Value a (IfaceV p)" for p])

lemma unwrapPointer_other:
  "Kind val \<noteq> reflect_Ptr \<Longrightarrow> Kind val \<noteq> reflect_Interface \<Longrightarrow> unwrapPointer val = val"
  by (simp add: unwrapPointer.simps)

subsection \<open>The handlers of the scalar types, of capsules and of the dynamic type\<close>

text \<open>
  Each handler unwraps first and returns the typed null when nothing is left. Then it
  switches on the kind of the value; the \<^verbatim>\<open>default\<close> case is the last \<open>else\<close>.
  \<^verbatim>\<open>encodeNumber\<close> does not list \<^verbatim>\<open>reflect.Uintptr\<close> among the unsigned kinds.
  A type assertion \<^verbatim>\<open>val.Interface().(T)\<close> is the \<open>case\<close> on \<open>Interface val\<close>; it
  cannot fail behind the test \<^verbatim>\<open>AssignableTo\<close> that guards it.
\<close>

definition encodeBool :: "reflect_Value \<Rightarrow> Path \<Rightarrow> result" where
  "encodeBool val0 path =
     (let val = unwrapPointer val0 in
      if \<not> IsValid val then (Inr (NullVal cty_Bool), path)
      else if Kind val = reflect_Bool then (Inr (BoolVal (Value_Bool val)), path)
      else (Inl (NewErrorf path (cant_convert_kind (Kind val) cty_Bool)), path))"

definition encodeNumber :: "reflect_Value \<Rightarrow> Path \<Rightarrow> result" where
  "encodeNumber val0 path =
     (let val = unwrapPointer val0 in
      if \<not> IsValid val then (Inr (NullVal cty_Number), path)
      else if Kind val \<in> {reflect_Int, reflect_Int8, reflect_Int16, reflect_Int32, reflect_Int64}
        then (Inr (NumberIntVal (Value_Int val)), path)
      else if Kind val \<in> {reflect_Uint, reflect_Uint8, reflect_Uint16, reflect_Uint32, reflect_Uint64}
        then (Inr (NumberUIntVal (Value_Uint val)), path)
      else if Kind val \<in> {reflect_Float32, reflect_Float64}
        then (Inr (NumberFloatVal (Value_Float val)), path)
      else
        (let val = (if Kind val = reflect_Struct \<and> AssignableTo (Value_Type val) bigIntType
                    then (case Interface val of BigIntV bigInt \<Rightarrow> ValueOf (Some (BigFloatV (SetInt bigInt))) | _ \<Rightarrow> val)
                    else val) in
         if Kind val = reflect_Struct \<and> AssignableTo (Value_Type val) bigFloatType
         then (case Interface val of BigFloatV bigFloat \<Rightarrow> (Inr (NumberVal bigFloat), path)
               | _ \<Rightarrow> (Inl (Panic ''interface conversion''), path))
         else (Inl (NewErrorf path (cant_convert_kind (Kind val) cty_Number)), path)))"

definition encodeString :: "reflect_Value \<Rightarrow> Path \<Rightarrow> result" where
  "encodeString val0 path =
     (let val = unwrapPointer val0 in
      if \<not> IsValid val then (Inr (NullVal cty_String), path)
      else if Kind val = reflect_String then (Inr (StringVal (Value_String val)), path)
      else (Inl (NewErrorf path (cant_convert_kind (Kind val) cty_String)), path))"

definition encodeCapsule :: "reflect_Value \<Rightarrow> cty_type \<Rightarrow> Path \<Rightarrow> result" where
  "encodeCapsule val0 capsuleType path =
     (let val = unwrapPointer val0 in
      if \<not> IsValid val then (Inr (NullVal capsuleType), path)
      else if Kind val \<noteq> reflect_Ptr \<and> \<not> CanAddr val
        then (Inl (NewErrorf path (capsule_must_be_addressable capsuleType)), path)
      else
        (let val = (if Kind val \<noteq> reflect_Ptr then Addr val else val) in
         if \<not> AssignableTo (type_Elem (Value_Type val)) (EncapsulatedType capsuleType)
         then (Inl (NewErrorf path (capsule_not_compatible (Value_Type val) capsuleType)), path)
         else (Inr (CapsuleVal capsuleType (Interface val)), path)))"

definition encodeDynamic :: "reflect_Value \<Rightarrow> Path \<Rightarrow> result" where
  "encodeDynamic val0 path =
     (let val = unwrapPointer val0 in
      if \<not> IsValid val then (Inr (NullVal DynamicPseudoType), path)
      else if Kind val = reflect_Struct then
        (if \<not> AssignableTo (Value_Type val) valueType
         then (Inl (NewErrorf path (dynamic_only_Value_type (Value_Type val))), path)
         else (case Interface val of CtyV v \<Rightarrow> (Inr v, path)
               | _ \<Rightarrow> (Inl (Panic ''interface conversion''), path)))
      else (Inl (NewErrorf path (dynamic_only_Value_kind (Kind val))), path))"

definition encodePassthruogh :: "deps \<Rightarrow> reflect_Value \<Rightarrow> cty_type \<Rightarrow> Path \<Rightarrow> result" where
  "encodePassthruogh d wrappedVal0 wantTy path =
     (let wrappedVal = unwrapPointer wrappedVal0 in
      if \<not> IsValid wrappedVal then (Inr (NullVal wantTy), path)
      else (case Interface wrappedVal of
              CtyV givenVal \<Rightarrow>
                (case Convert d givenVal wantTy of
                   Inl err \<Rightarrow> (Inl (NewErrorf path (unsuitable_value err)), path)
                 | Inr val \<Rightarrow> (Inr val, path))
            | _ \<Rightarrow> (Inl (Panic ''interface conversion''), path)))"

subsection \<open>The element loops\<close>

text \<open>
  The collection handlers share one loop: for each item in turn, overwrite the last step
  of the path (the set handler does not: its \<open>step\<close> is \<open>None\<close>), encode,
  return at once on an error, otherwise store the value and go on. \<open>for_each\<close> is that
  loop; \<open>body\<close> is what a handler does with one item under the path so updated. It
  returns the values in the order of the items, and the path as the loop leaves it.
\<close>

fun for_each ::
  "('a \<Rightarrow> PathStep option) \<Rightarrow> ('a \<Rightarrow> Path \<Rightarrow> encode_error + 'b) \<Rightarrow> 'a list \<Rightarrow> Path
     \<Rightarrow> (encode_error + 'b list) \<times> Path" where
  "for_each step body [] path = (Inr [], path)"
| "for_each step body (x # xs) path =
     (let path = (case step x of None \<Rightarrow> path | Some s \<Rightarrow> path[length path - 1 := s]) in
      case body x path of
        Inl err \<Rightarrow> (Inl err, path)
      | Inr v \<Rightarrow>
          (case for_each step body xs path of
             (Inl err, p) \<Rightarrow> (Inl err, p)
           | (Inr vs, p) \<Rightarrow> (Inr (v # vs), p)))"

lemma for_each_cong [fundef_cong]:
  "xs = ys \<Longrightarrow> path = path' \<Longrightarrow> step = step' \<Longrightarrow> (\<And>x p. x \<in> set ys \<Longrightarrow> body x p = body' x p)
     \<Longrightarrow> for_each step body xs path = for_each step' body' ys path'"
proof (induction ys arbitrary: xs path path')
  case Nil
  then show ?case by simp
next
  case (Cons y ys)
  have "for_each step body ys q = for_each step' body' ys q" for q
    using Cons.prems by (intro Cons.IH) auto
  with Cons.prems show ?case by (simp add: Let_def split: sum.splits)
qed

subsection \<open>encode and the handlers of the collection and structural types\<close>

text \<open>
  \<^verbatim>\<open>encode\<close> and the five handlers that call it back are defined together. A Go
  \<^verbatim>\<open>switch\<close> with \<^verbatim>\<open>fallthrough\<close> from \<^verbatim>\<open>case reflect.Slice\<close> into
  \<^verbatim>\<open>case reflect.Array\<close> is the nil test of the slice followed by the shared body.
  \<^verbatim>\<open>path = append(path, cty.PathStep(nil))\<close> is \<open>path @ [nil_step]\<close>,
  \<^verbatim>\<open>path[len(path)-1] = s\<close> is done by \<open>for_each\<close>, and
  \<^verbatim>\<open>path = path[:len(path)-1]\<close> is \<open>butlast\<close>. The value a recursive call
  returns is the first component of its result: its path is the callee's own.

  The maps \<^verbatim>\<open>vals\<close> of the map and object handlers are association lists, in the
  order in which the keys were visited. In the struct case of \<^verbatim>\<open>encodeObject\<close>,
  \<^verbatim>\<open>val.Field\<close> panics when the resolver names a field the struct does not have.
\<close>

function encode :: "deps \<Rightarrow> reflect_Value \<Rightarrow> cty_type \<Rightarrow> Path \<Rightarrow> result"
  and encodeList :: "deps \<Rightarrow> reflect_Value \<Rightarrow> cty_type \<Rightarrow> Path \<Rightarrow> result"
  and encodeMap :: "deps \<Rightarrow> reflect_Value \<Rightarrow> cty_type \<Rightarrow> Path \<Rightarrow> result"
  and encodeSet :: "deps \<Rightarrow> reflect_Value \<Rightarrow> cty_type \<Rightarrow> Path \<Rightarrow> result"
  and encodeObject :: "deps \<Rightarrow> reflect_Value \<Rightarrow> (string \<times> cty_type) list \<Rightarrow> Path \<Rightarrow> result"
  and encodeTuple :: "deps \<Rightarrow> reflect_Value \<Rightarrow> cty_type list \<Rightarrow> Path \<Rightarrow> result"
where
  "encode d val ty path =
     (if val \<noteq> zero_Value \<and> AssignableTo (Value_Type val) valueType
      then encodePassthruogh d val ty path
      else case ty of
        cty_Bool \<Rightarrow> encodeBool val path
      | cty_Number \<Rightarrow> encodeNumber val path
      | cty_String \<Rightarrow> encodeString val path
      | DynamicPseudoType \<Rightarrow> encodeDynamic val path
      | cty_List ety \<Rightarrow> encodeList d val ety path
      | cty_Map ety \<Rightarrow> encodeMap d val ety path
      | cty_Set ety \<Rightarrow> encodeSet d val ety path
      | cty_Object attrTypes \<Rightarrow> encodeObject d val attrTypes path
      | cty_Tuple elemTypes \<Rightarrow> encodeTuple d val elemTypes path
      | cty_Capsule n t \<Rightarrow> encodeCapsule val ty path
      | NilType \<Rightarrow> (Inl (NewErrorf path (unsupported_target_type ty)), path))"
| "encodeList d val0 ety path =
     (let val = unwrapPointer val0 in
      if \<not> IsValid val then (Inr (NullVal (cty_List ety)), path)
      else if Kind val = reflect_Slice \<and> IsNil val then (Inr (NullVal (cty_List ety)), path)
      else if Kind val = reflect_Slice \<or> Kind val = reflect_Array then
        if Len val = 0 then (Inr (ListValEmpty ety), path)
        else
          (let path = path @ [nil_step] in
           case for_each (\<lambda>i. Some (IndexStep (NumberIntVal (int i))))
                  (\<lambda>i path. fst (encode d (Index val i) ety path)) [0..<Len val] path of
             (Inl err, path) \<Rightarrow> (Inl err, path)
           | (Inr vals, path) \<Rightarrow> (Inr (ListVal vals), butlast path))
      else (Inl (NewErrorf path (cant_convert_kind (Kind val) (cty_List ety))), path))"
| "encodeMap d val0 ety path =
     (let val = unwrapPointer val0 in
      if \<not> IsValid val then (Inr (NullVal (cty_Map ety)), path)
      else if Kind val = reflect_Map then
        if IsNil val then (Inr (NullVal (cty_Map ety)), path)
        else if Len val = 0 then (Inr (MapValEmpty ety), path)
        else
          (let keyType = type_Key (Value_Type val) in
           if type_Kind keyType \<noteq> reflect_String
           then (Inl (NewErrorf path (map_key_type_must_be_string keyType)), path)
           else
             (let path = path @ [nil_step] in
              case for_each (\<lambda>kv. Some (IndexStep (StringVal (Value_String kv))))
                     (\<lambda>kv path.
                        let k = Value_String kv in
                        case fst (encode d (MapIndex val (ValueOf (Some (StringV k)))) ety path) of
                          Inl err \<Rightarrow> Inl err
                        | Inr v \<Rightarrow> Inr (k, v))
                     (MapKeys val) path of
                (Inl err, path) \<Rightarrow> (Inl err, path)
              | (Inr vals, path) \<Rightarrow> (Inr (MapVal vals), butlast path)))
      else (Inl (NewErrorf path (cant_convert_kind (Kind val) (cty_Map ety))), path))"
| "encodeSet d val0 ety path =
     (let val = unwrapPointer val0 in
      if \<not> IsValid val then (Inr (NullVal (cty_Set ety)), path)
      else if Kind val = reflect_Slice \<and> IsNil val then (Inr (NullVal (cty_Set ety)), path)
      else if Kind val = reflect_Slice \<or> Kind val = reflect_Array then
        if Len val = 0 then (Inr (SetValEmpty ety), path)
        else
          (case for_each (\<lambda>i. None)
                  (\<lambda>i path. fst (encode d (Index val i) ety path)) [0..<Len val] path of
             (Inl err, path) \<Rightarrow> (Inl err, path)
           | (Inr vals, path) \<Rightarrow> (Inr (SetVal vals), path))
      else if Kind val = reflect_Struct then
        if \<not> AssignableTo (Value_Type val) setType
        then (Inl (NewErrorf path (cant_convert_type (Value_Type val) (cty_Set ety))), path)
        else
          (case Interface val of
             SetV inVals \<Rightarrow>
               if length inVals = 0 then (Inr (SetValEmpty ety), path)
               else
                 (case for_each (\<lambda>x. None)
                         (\<lambda>x path. fst (encode d (ValueOf x) ety path)) inVals path of
                    (Inl err, path) \<Rightarrow> (Inl err, path)
                  | (Inr vals, path) \<Rightarrow> (Inr (SetVal vals), path))
           | _ \<Rightarrow> (Inl (Panic ''interface conversion''), path))
      else (Inl (NewErrorf path (cant_convert_kind (Kind val) (cty_Set ety))), path))"
| "encodeObject d val0 attrTypes path =
     (let val = unwrapPointer val0 in
      if \<not> IsValid val then (Inr (NullVal (cty_Object attrTypes)), path)
      else if Kind val = reflect_Map then
        if IsNil val then (Inr (NullVal (cty_Object attrTypes)), path)
        else
          (let keyType = type_Key (Value_Type val) in
           if type_Kind keyType \<noteq> reflect_String
           then (Inl (NewErrorf path (map_key_type_must_be_string keyType)), path)
           else if length attrTypes = 0 then (Inr EmptyObjectVal, path)
           else
             (let path = path @ [nil_step];
                  haveKeys = set (map Value_String (MapKeys val)) in
              case for_each (\<lambda>(k, at). Some (GetAttrStep k))
                     (\<lambda>(k, at) path.
                        if k \<notin> haveKeys then Inr (k, NullVal at)
                        else
                          (case fst (encode d (MapIndex val (ValueOf (Some (StringV k)))) at path) of
                             Inl err \<Rightarrow> Inl err
                           | Inr v \<Rightarrow> Inr (k, v)))
                     attrTypes path of
                (Inl err, path) \<Rightarrow> (Inl err, path)
              | (Inr vals, path) \<Rightarrow> (Inr (ObjectVal vals), butlast path)))
      else if Kind val = reflect_Struct then
        if length attrTypes = 0 then (Inr EmptyObjectVal, path)
        else
          (let path = path @ [nil_step];
               attrFields = rivertags_Get d (Value_Type val) in
           case for_each (\<lambda>(k, at). Some (GetAttrStep k))
                  (\<lambda>(k, at) path.
                     case attrFields k of
                       Some f \<Rightarrow>
                         if f < NumField val then
                           (case fst (encode d (Field val f) at path) of
                              Inl err \<Rightarrow> Inl err
                            | Inr v \<Rightarrow> Inr (k, v))
                         else Inl (Panic ''reflect: Field index out of range'')
                     | None \<Rightarrow> Inr (k, NullVal at))
                  attrTypes path of
             (Inl err, path) \<Rightarrow> (Inl err, path)
           | (Inr vals, path) \<Rightarrow> (Inr (ObjectVal vals), butlast path))
      else (Inl (NewErrorf path (cant_convert_kind (Kind val) (cty_Object attrTypes))), path))"
| "encodeTuple d val0 elemTypes path =
     (let val = unwrapPointer val0 in
      if \<not> IsValid val then (Inr (NullVal (cty_Tuple elemTypes)), path)
      else if Kind val = reflect_Slice then
        if IsNil val then (Inr (NullVal (cty_Tuple elemTypes)), path)
        else if Len val \<noteq> length elemTypes
        then (Inl (NewErrorf path (wrong_number_of_elements (Len val) (length elemTypes))), path)
        else if length elemTypes = 0 then (Inr EmptyTupleVal, path)
        else
          (let path = path @ [nil_step] in
           case for_each (\<lambda>(i, ety). Some (IndexStep (NumberIntVal (int i))))
                  (\<lambda>(i, ety) path. fst (encode d (Index val i) ety path))
                  (enumerate 0 elemTypes) path of
             (Inl err, path) \<Rightarrow> (Inl err, path)
           | (Inr vals, path) \<Rightarrow> (Inr (TupleVal vals), butlast path))
      else if Kind val = reflect_Struct then
        (let fieldCount = NumField val in
         if fieldCount \<noteq> length elemTypes
         then (Inl (NewErrorf path (wrong_number_of_struct_fields fieldCount (length elemTypes))), path)
         else if length elemTypes = 0 then (Inr EmptyTupleVal, path)
         else
           (let path = path @ [nil_step] in
            case for_each (\<lambda>(i, ety). Some (IndexStep (NumberIntVal (int i))))
                   (\<lambda>(i, ety) path. fst (encode d (Field val i) ety path))
                   (enumerate 0 elemTypes) path of
              (Inl err, path) \<Rightarrow> (Inl err, path)
            | (Inr vals, path) \<Rightarrow> (Inr (TupleVal vals), butlast path)))
      else (Inl (NewErrorf path (cant_convert_kind (Kind val) (cty_Tuple elemTypes))), path))"
  by pat_completeness auto

lemma size_Tuple_elem: "ety \<in> set tys \<Longrightarrow> size ety < size (cty_Tuple tys)"
  by (induction tys) auto

lemma size_Object_attr: "(k, at) \<in> set attrs \<Longrightarrow> size at < size (cty_Object attrs)"
  by (induction attrs) auto

lemma enumerate_elem: "(i, ety) \<in> set (enumerate n tys) \<Longrightarrow> ety \<in> set tys"
  by (auto simp: in_set_enumerate_eq)

termination encode
proof (relation "measure (\<lambda>x. case x of
    Inl (Inl (d, val, ty, path)) \<Rightarrow> 2 * size ty
  | Inl (Inr (Inl (d, val, ety, path))) \<Rightarrow> 2 * size (cty_List ety) - 1
  | Inl (Inr (Inr (d, val, ety, path))) \<Rightarrow> 2 * size (cty_Map ety) - 1
  | Inr (Inl (d, val, ety, path)) \<Rightarrow> 2 * size (cty_Set ety) - 1
  | Inr (Inr (Inl (d, val, attrTypes, path))) \<Rightarrow> 2 * size (cty_Object attrTypes) - 1
  | Inr (Inr (Inr (d, val, elemTypes, path))) \<Rightarrow> 2 * size (cty_Tuple elemTypes) - 1)",
    goal_cases)
  case 1
  then show ?case by simp
next
  case (11 d val0 attrTypes path x xa xaa xab xac)
  then show ?case using size_Object_attr by (cases xac) fastforce
next
  case (12 d val0 attrTypes path x xa xaa xab)
  then show ?case using size_Object_attr by (cases xab) fastforce
next
  case (13 d val0 elemTypes path x xa xaa)
  then show ?case using size_Tuple_elem enumerate_elem by (cases xaa) fastforce
next
  case (14 d val0 elemTypes path x xa xaa xab)
  then show ?case using size_Tuple_elem enumerate_elem by (cases xab) fastforce
qed simp_all

declare encode.simps [simp del] encodeList.simps [simp del] encodeMap.simps [simp del]
  encodeSet.simps [simp del] encodeObject.simps [simp del] encodeTuple.simps [simp del]


section \<open>Properties of the encoder\<close>

subsection \<open>A value model and a resolver for concrete inputs\<close>

text \<open>
  To evaluate the encoder on concrete inputs, \<open>example_deps\<close> gives it a small
  conversion (every value converts to the dynamic type unchanged, a string to the string
  type unchanged, a boolean to the string type as its name; nothing else converts) and a
  resolver that knows one struct type, \<^verbatim>\<open>Point\<close>, with the attributes \<^verbatim>\<open>x\<close>
  and \<^verbatim>\<open>y\<close> on its first two fields.
\<close>

definition example_deps :: deps where
  "example_deps =
     \<lparr>Convert = (\<lambda>v t.
          if t = DynamicPseudoType then Inr v
          else (case (v, t) of
                  (StringVal s, cty_String) \<Rightarrow> Inr v
                | (BoolVal b, cty_String) \<Rightarrow> Inr (StringVal (if b then ''true'' else ''false''))
                | _ \<Rightarrow> Inl ''unsupported'')),
       rivertags_Get = (\<lambda>t k.
          if t = struct_t ''Point'' then map_of [(''x'', 0), (''y'', 1)] k else None)\<rparr>"

subsection \<open>Dispatch\<close>

text \<open>
  The values whose Go type is \<^verbatim>\<open>cty.Value\<close> are the values \<open>Value a (CtyV v)\<close>:
  the first test of \<^verbatim>\<open>encode\<close> holds for them and for no other value.
\<close>

lemma passthrough_cond:
  "(val \<noteq> zero_Value \<and> AssignableTo (Value_Type val) valueType) \<longleftrightarrow> (\<exists>a v. val = Value a (CtyV v))"
proof (cases val)
  case zero_Value
  then show ?thesis by simp
next
  case (Value a v)
  then show ?thesis by (cases v) (simp_all add: AssignableTo_def)
qed

lemma unwrapPointer_CtyV [simp]: "unwrapPointer (Value a (CtyV v)) = Value a (CtyV v)"
  by (simp add: unwrapPointer_other)

lemma not_passthrough:
  assumes "unwrapPointer val = u" and "\<And>a v. u \<noteq> Value a (CtyV v)"
  shows "\<not> (val \<noteq> zero_Value \<and> AssignableTo (Value_Type val) valueType)"
proof
  assume "val \<noteq> zero_Value \<and> AssignableTo (Value_Type val) valueType"
  then obtain a v where "val = Value a (CtyV v)"
    unfolding passthrough_cond by blast
  with assms(1) have "u = Value a (CtyV v)" by simp
  with assms(2) show False by blast
qed

lemma encode_then:
  assumes "val \<noteq> zero_Value \<and> AssignableTo (Value_Type val) valueType"
  shows "encode d val ty path = encodePassthruogh d val ty path"
  by (subst encode.simps, subst if_P [OF assms]) (rule refl)

lemma encode_else:
  assumes "\<not> (val \<noteq> zero_Value \<and> AssignableTo (Value_Type val) valueType)"
  shows "encode d val ty path =
     (case ty of
        cty_Bool \<Rightarrow> encodeBool val path
      | cty_Number \<Rightarrow> encodeNumber val path
      | cty_String \<Rightarrow> encodeString val path
      | DynamicPseudoType \<Rightarrow> encodeDynamic val path
      | cty_List ety \<Rightarrow> encodeList d val ety path
      | cty_Map ety \<Rightarrow> encodeMap d val ety path
      | cty_Set ety \<Rightarrow> encodeSet d val ety path
      | cty_Object attrTypes \<Rightarrow> encodeObject d val attrTypes path
      | cty_Tuple elemTypes \<Rightarrow> encodeTuple d val elemTypes path
      | cty_Capsule n t \<Rightarrow> encodeCapsule val ty path
      | NilType \<Rightarrow> (Inl (NewErrorf path (unsupported_target_type ty)), path))"
  by (subst encode.simps, subst if_not_P [OF assms]) (rule refl)

lemma encode_dispatch:
  assumes "unwrapPointer val = u" and "\<And>a v. u \<noteq> Value a (CtyV v)"
  shows "encode d val ty path =
     (case ty of
        cty_Bool \<Rightarrow> encodeBool val path
      | cty_Number \<Rightarrow> encodeNumber val path
      | cty_String \<Rightarrow> encodeString val path
      | DynamicPseudoType \<Rightarrow> encodeDynamic val path
      | cty_List ety \<Rightarrow> encodeList d val ety path
      | cty_Map ety \<Rightarrow> encodeMap d val ety path
      | cty_Set ety \<Rightarrow> encodeSet d val ety path
      | cty_Object attrTypes \<Rightarrow> encodeObject d val attrTypes path
      | cty_Tuple elemTypes \<Rightarrow> encodeTuple d val elemTypes path
      | cty_Capsule n t \<Rightarrow> encodeCapsule val ty path
      | NilType \<Rightarrow> (Inl (NewErrorf path (unsupported_target_type ty)), path))"
  by (rule encode_else [OF not_passthrough [OF assms]])

text \<open>
  Claim C1. For a Go value of type \<^verbatim>\<open>cty.Value\<close> and any target type, including one
  that is none of the type constructors, \<^verbatim>\<open>encode\<close> is \<^verbatim>\<open>encodePassthruogh\<close>:
  no handler of a native kind runs, the target type is not looked at. The result is what
  \<^verbatim>\<open>Convert\<close> returns for the value and the target type; when that is an error, the
  result is the error at the current path, with the message of \<^verbatim>\<open>Convert\<close>.
\<close>

theorem encode_passthrough_first:
  "encode d (Value a (CtyV v)) ty path = encodePassthruogh d (Value a (CtyV v)) ty path
   \<and> encodePassthruogh d (Value a (CtyV v)) ty path =
       (case Convert d v ty of
          Inl err \<Rightarrow> (Inl (PathError path (unsuitable_value err)), path)
        | Inr w \<Rightarrow> (Inr w, path))"
  by (simp add: encode.simps AssignableTo_def encodePassthruogh_def NewErrorf_def
      split: sum.splits)

subsection \<open>Null propagation\<close>

text \<open>
  A chain of pointers and interfaces that ends in a nil one, of any depth: the inputs of
  the null-propagation property. \<open>absent\<close> adds the zero Value, which is what reflect
  makes of a nil \<^verbatim>\<open>interface{}\<close>. On these, and only these, \<^verbatim>\<open>unwrapPointer\<close>
  returns the zero Value.
\<close>

fun nil_chain :: "native \<Rightarrow> bool" where
  "nil_chain (PtrV t None) = True"
| "nil_chain (PtrV t (Some v)) = nil_chain v"
| "nil_chain (IfaceV None) = True"
| "nil_chain (IfaceV (Some v)) = nil_chain v"
| "nil_chain _ = False"

fun absent :: "reflect_Value \<Rightarrow> bool" where
  "absent zero_Value = True"
| "absent (Value a v) = nil_chain v"

lemma nil_chain_unwrapPointer: "nil_chain v \<Longrightarrow> unwrapPointer (Value a v) = zero_Value"
  by (induction v arbitrary: a rule: nil_chain.induct) simp_all

lemma absent_unwrapPointer: "absent val \<Longrightarrow> unwrapPointer val = zero_Value"
  by (cases val) (simp_all add: nil_chain_unwrapPointer)

lemma null_handlers:
  assumes "unwrapPointer val = zero_Value"
  shows "encodeBool val path = (Inr (NullVal cty_Bool), path)"
    and "encodeNumber val path = (Inr (NullVal cty_Number), path)"
    and "encodeString val path = (Inr (NullVal cty_String), path)"
    and "encodeDynamic val path = (Inr (NullVal DynamicPseudoType), path)"
    and "encodeCapsule val ty path = (Inr (NullVal ty), path)"
    and "encodeList d val ety path = (Inr (NullVal (cty_List ety)), path)"
    and "encodeMap d val ety path = (Inr (NullVal (cty_Map ety)), path)"
    and "encodeSet d val ety path = (Inr (NullVal (cty_Set ety)), path)"
    and "encodeObject d val attrTypes path = (Inr (NullVal (cty_Object attrTypes)), path)"
    and "encodeTuple d val elemTypes path = (Inr (NullVal (cty_Tuple elemTypes)), path)"
  using assms
  by (simp_all add: encodeBool_def encodeNumber_def encodeString_def encodeDynamic_def
      encodeCapsule_def encodeList.simps encodeMap.simps encodeSet.simps encodeObject.simps
      encodeTuple.simps)

text \<open>
  Claim C2. For each of the ten type constructors and every absent Go value (the zero
  Value, or a chain of pointers and interfaces of any depth ending in nil), \<^verbatim>\<open>encode\<close>
  returns the typed null of the target type and no error. No check of a handler runs
  before: the result does not depend on anything but the target type.
\<close>

theorem null_propagation:
  assumes "absent val" and "ty \<noteq> NilType"
  shows "encode d val ty path = (Inr (NullVal ty), path)"
proof -
  have u: "unwrapPointer val = zero_Value"
    using assms(1) by (rule absent_unwrapPointer)
  have "encode d val ty path =
     (case ty of
        cty_Bool \<Rightarrow> encodeBool val path
      | cty_Number \<Rightarrow> encodeNumber val path
      | cty_String \<Rightarrow> encodeString val path
      | DynamicPseudoType \<Rightarrow> encodeDynamic val path
      | cty_List ety \<Rightarrow> encodeList d val ety path
      | cty_Map ety \<Rightarrow> encodeMap d val ety path
      | cty_Set ety \<Rightarrow> encodeSet d val ety path
      | cty_Object attrTypes \<Rightarrow> encodeObject d val attrTypes path
      | cty_Tuple elemTypes \<Rightarrow> encodeTuple d val elemTypes path
      | cty_Capsule n t \<Rightarrow> encodeCapsule val ty path
      | NilType \<Rightarrow> (Inl (NewErrorf path (unsupported_target_type ty)), path))"
    by (rule encode_dispatch [OF u]) simp
  with assms(2) show ?thesis
    by (cases ty) (simp_all add: null_handlers [OF u])
qed


theorem null_propagation_witness:
  "absent (Value False (PtrV (ptr_t string_t) (Some (PtrV string_t None))))
   \<and> cty_List cty_String \<noteq> NilType
   \<and> encode example_deps (Value False (PtrV (ptr_t string_t) (Some (PtrV string_t None))))
        (cty_List cty_String) [] = (Inr (NullVal (cty_List cty_String)), [])"
  using null_propagation [of "Value False (PtrV (ptr_t string_t) (Some (PtrV string_t None)))"
      "cty_List cty_String" example_deps "[]"]
  by simp

subsection \<open>Maps with keys that are not strings\<close>

text \<open>
  Claim C3, as stated, fails: a native mapping whose key kind is not String is not always
  rejected. An empty \<^verbatim>\<open>map[int]string\<close> encodes to the empty map of a map type, and a
  nil one to the typed null of an object type: both tests stand before the test of the key
  type.
\<close>

theorem non_string_key_counterexample:
  "fst (encode example_deps (Value False (MapV (int_t I) string_t (Some []))) (cty_Map cty_String) [])
     = Inr (MapValEmpty cty_String)
   \<and> fst (encode example_deps (Value False (MapV (int_t I) string_t None)) (cty_Object []) [])
     = Inr (NullVal (cty_Object []))"
  by (simp add: encode.simps encodeMap.simps encodeObject.simps AssignableTo_def
      unwrapPointer_other)

text \<open>
  Claim C3, amended. For every non-nil native mapping whose key kind is not String,
  encoding against an object type fails with the non-string-key cause at the current
  path, and so does encoding against a map type when the mapping has at least one entry.
\<close>

theorem non_string_key_rejected:
  assumes "unwrapPointer val = Value a (MapV kt et (Some es))"
    and "type_Kind kt \<noteq> reflect_String"
  shows "fst (encode d val (cty_Object attrTypes) path)
           = Inl (PathError path (map_key_type_must_be_string kt))
       \<and> (es \<noteq> [] \<longrightarrow> fst (encode d val (cty_Map ety) path)
           = Inl (PathError path (map_key_type_must_be_string kt)))"
proof -
  have e: "encode d val ty path =
     (case ty of
        cty_Bool \<Rightarrow> encodeBool val path
      | cty_Number \<Rightarrow> encodeNumber val path
      | cty_String \<Rightarrow> encodeString val path
      | DynamicPseudoType \<Rightarrow> encodeDynamic val path
      | cty_List ety \<Rightarrow> encodeList d val ety path
      | cty_Map ety \<Rightarrow> encodeMap d val ety path
      | cty_Set ety \<Rightarrow> encodeSet d val ety path
      | cty_Object attrTypes \<Rightarrow> encodeObject d val attrTypes path
      | cty_Tuple elemTypes \<Rightarrow> encodeTuple d val elemTypes path
      | cty_Capsule n t \<Rightarrow> encodeCapsule val ty path
      | NilType \<Rightarrow> (Inl (NewErrorf path (unsupported_target_type ty)), path))" for ty
    by (rule encode_dispatch [OF assms(1)]) simp
  have "fst (encodeObject d val attrTypes path) = Inl (PathError path (map_key_type_must_be_string kt))"
    using assms by (simp add: encodeObject.simps NewErrorf_def)
  moreover have "fst (encodeMap d val ety path) = Inl (PathError path (map_key_type_must_be_string kt))"
    if "es \<noteq> []"
    using assms that by (simp add: encodeMap.simps NewErrorf_def)
  ultimately show ?thesis by (simp add: e)
qed

theorem non_string_key_rejected_witness:
  "unwrapPointer (Value False (MapV (int_t I) string_t (Some [(IntV I 1, StringV ''x'')])))
     = Value False (MapV (int_t I) string_t (Some [(IntV I 1, StringV ''x'')]))
   \<and> type_Kind (int_t I) \<noteq> reflect_String
   \<and> [(IntV I 1, StringV ''x'')] \<noteq> []
   \<and> fst (encode example_deps (Value False (MapV (int_t I) string_t (Some [(IntV I 1, StringV ''x'')])))
        (cty_Object [(''a'', cty_String)]) []) = Inl (PathError [] (map_key_type_must_be_string (int_t I)))
   \<and> fst (encode example_deps (Value False (MapV (int_t I) string_t (Some [(IntV I 1, StringV ''x'')])))
        (cty_Map cty_String) []) = Inl (PathError [] (map_key_type_must_be_string (int_t I)))"
  using non_string_key_rejected [of "Value False (MapV (int_t I) string_t (Some [(IntV I 1, StringV ''x'')]))"
      False "int_t I" string_t "[(IntV I 1, StringV ''x'')]" example_deps "[(''a'', cty_String)]" "[]" cty_String]
  by (simp add: unwrapPointer_other)

subsection \<open>The loop\<close>

text \<open>
  What \<open>for_each\<close> returns, in terms of what \<open>body\<close> returns for each item: all the
  values in order when every item succeeds, the error of the first item that fails
  otherwise. A loop that writes a step writes it into the last place of the path and
  nowhere else, so the path it leaves has the length and the front of the path it got.
\<close>

lemma for_each_Cons_fst:
  "fst (for_each step body (x # xs) p) =
     (let q = (case step x of None \<Rightarrow> p | Some s \<Rightarrow> p[length p - 1 := s]) in
      case body x q of
        Inl err \<Rightarrow> Inl err
      | Inr v \<Rightarrow> (case fst (for_each step body xs q) of Inl err \<Rightarrow> Inl err | Inr vs \<Rightarrow> Inr (v # vs)))"
proof -
  obtain r q' where "for_each step body xs (case step x of None \<Rightarrow> p | Some s \<Rightarrow> p[length p - 1 := s]) = (r, q')"
    by (cases "for_each step body xs (case step x of None \<Rightarrow> p | Some s \<Rightarrow> p[length p - 1 := s])")
  then show ?thesis
    by (cases r) (simp_all add: Let_def split: sum.splits)
qed

lemma for_each_Cons_snd:
  "snd (for_each step body (x # xs) p) =
     (let q = (case step x of None \<Rightarrow> p | Some s \<Rightarrow> p[length p - 1 := s]) in
      case body x q of
        Inl err \<Rightarrow> q
      | Inr v \<Rightarrow> snd (for_each step body xs q))"
proof -
  obtain r q' where "for_each step body xs (case step x of None \<Rightarrow> p | Some s \<Rightarrow> p[length p - 1 := s]) = (r, q')"
    by (cases "for_each step body xs (case step x of None \<Rightarrow> p | Some s \<Rightarrow> p[length p - 1 := s])")
  then show ?thesis
    by (cases r) (simp_all add: Let_def split: sum.splits)
qed

lemmas for_each_Cons = for_each_Cons_fst for_each_Cons_snd

declare for_each.simps(2) [simp del]

lemma for_each_path:
  "length (snd (for_each step body xs p)) = length p
   \<and> butlast (snd (for_each step body xs p)) = butlast p"
proof (induction xs arbitrary: p)
  case Nil
  then show ?case by simp
next
  case (Cons x xs)
  show ?case
  proof (cases "step x")
    case None
    with Cons.IH [of p] show ?thesis
      by (simp add: for_each_Cons split: sum.splits)
  next
    case (Some s)
    with Cons.IH [of "p[length p - 1 := s]"] show ?thesis
      by (simp add: for_each_Cons Let_def butlast_list_update split: sum.splits)
  qed
qed

lemma for_each_path_None:
  "\<forall>x\<in>set xs. step x = None \<Longrightarrow> snd (for_each step body xs p) = p"
  by (induction xs arbitrary: p) (simp_all add: for_each_Cons split: sum.splits)



lemma for_each_error:
  assumes "\<forall>x\<in>set xs. step x = Some (st x)"
    and "fst (for_each step body xs p) = Inl e"
  shows "\<exists>x\<in>set xs. body x (p[length p - 1 := st x]) = Inl e"
  using assms
proof (induction xs arbitrary: p)
  case Nil
  then show ?case by simp
next
  case (Cons x xs)
  let ?p = "p[length p - 1 := st x]"
  show ?case
  proof (cases "body x ?p")
    case (Inl e')
    with Cons.prems show ?thesis by (simp add: for_each_Cons)
  next
    case (Inr v)
    with Cons.prems have "fst (for_each step body xs ?p) = Inl e"
      by (simp add: for_each_Cons split: sum.splits)
    moreover have "\<forall>x\<in>set xs. step x = Some (st x)"
      using Cons.prems by simp
    ultimately have "\<exists>y\<in>set xs. body y (?p[length ?p - 1 := st y]) = Inl e"
      by (rule Cons.IH [rotated])
    then show ?thesis by simp
  qed
qed

lemma for_each_error_None:
  assumes "\<forall>x\<in>set xs. step x = None"
    and "fst (for_each step body xs p) = Inl e"
  shows "\<exists>x\<in>set xs. body x p = Inl e"
  using assms
proof (induction xs arbitrary: p)
  case Nil
  then show ?case by simp
next
  case (Cons x xs)
  show ?case
  proof (cases "body x p")
    case (Inl e')
    with Cons.prems show ?thesis by (simp add: for_each_Cons)
  next
    case (Inr v)
    with Cons.prems have "fst (for_each step body xs p) = Inl e"
      by (simp add: for_each_Cons split: sum.splits)
    moreover have "\<forall>x\<in>set xs. step x = None"
      using Cons.prems by simp
    ultimately have "\<exists>y\<in>set xs. body y p = Inl e"
      by (rule Cons.IH [rotated])
    then show ?thesis by simp
  qed
qed

subsection \<open>The path is restored\<close>

lemma loop_result_fst:
  "fst (case r of (Inl err, p) \<Rightarrow> (Inl err, g p) | (Inr vals, p) \<Rightarrow> (Inr (C vals), f p))
     = (case fst r of Inl err \<Rightarrow> Inl err | Inr vals \<Rightarrow> Inr (C vals))"
  by (cases r; cases "fst r") auto

lemma loop_result_snd:
  "snd (case r of (Inl err, p) \<Rightarrow> (Inl err, g p) | (Inr vals, p) \<Rightarrow> (Inr (C vals), f p))
     = (case fst r of Inl err \<Rightarrow> g (snd r) | Inr vals \<Rightarrow> f (snd r))"
  by (cases r; cases "fst r") auto

lemma IsValid_iff_Kind: "IsValid val \<longleftrightarrow> Kind val \<noteq> reflect_Invalid"
  unfolding Kind_Invalid_iff by (cases val) simp_all

lemma butlast_loop_path:
  "butlast (snd (for_each step body xs (path @ [s]))) = path"
  using for_each_path [of step body xs "path @ [s]"] by simp

lemma encodeList_path:
  "fst (encodeList d val ety path) = Inr v \<Longrightarrow> snd (encodeList d val ety path) = path"
  by (auto simp: encodeList.simps Let_def loop_result_fst loop_result_snd butlast_loop_path
      split: if_splits sum.splits)

lemma encodeMap_path:
  "fst (encodeMap d val ety path) = Inr v \<Longrightarrow> snd (encodeMap d val ety path) = path"
  by (auto simp: encodeMap.simps Let_def loop_result_fst loop_result_snd butlast_loop_path
      split: if_splits sum.splits)

lemma encodeSet_path:
  "fst (encodeSet d val ety path) = Inr v \<Longrightarrow> snd (encodeSet d val ety path) = path"
  by (auto simp: encodeSet.simps Let_def loop_result_fst loop_result_snd for_each_path_None
      split: if_splits sum.splits native.splits)

lemma encodeObject_path:
  "fst (encodeObject d val attrTypes path) = Inr v \<Longrightarrow> snd (encodeObject d val attrTypes path) = path"
  by (auto simp: encodeObject.simps Let_def loop_result_fst loop_result_snd butlast_loop_path
      split: if_splits sum.splits)

lemma encodeTuple_path:
  "fst (encodeTuple d val elemTypes path) = Inr v \<Longrightarrow> snd (encodeTuple d val elemTypes path) = path"
  by (auto simp: encodeTuple.simps Let_def loop_result_fst loop_result_snd butlast_loop_path
      split: if_splits sum.splits)

lemma scalar_path:
  "snd (encodeBool val path) = path"
  "snd (encodeNumber val path) = path"
  "snd (encodeString val path) = path"
  "snd (encodeDynamic val path) = path"
  "snd (encodeCapsule val ty path) = path"
  "snd (encodePassthruogh d val ty path) = path"
  by (simp_all add: encodeBool_def encodeNumber_def encodeString_def encodeDynamic_def
      encodeCapsule_def encodePassthruogh_def Let_def split: native.splits sum.splits)

text \<open>
  Claim C10. When \<^verbatim>\<open>encode\<close> returns a value, the local path of the function that
  produced it is again the path it was called with, so it has the length it had at entry:
  the list, map, object and tuple handlers append one step, overwrite only that step in
  their loop and cut it off before they return the value (the lemmas above, one for each
  handler); every other function leaves its path as it is.
\<close>

theorem path_restored_on_success:
  assumes "fst (encode d val ty path) = Inr v"
  shows "snd (encode d val ty path) = path \<and> length (snd (encode d val ty path)) = length path"
proof -
  have "snd (encode d val ty path) = path"
  proof (cases "val \<noteq> zero_Value \<and> AssignableTo (Value_Type val) valueType")
    case True
    then show ?thesis by (simp add: encode_then scalar_path)
  next
    case False
    with assms show ?thesis
      by (cases ty)
        (simp_all add: encode_else scalar_path encodeList_path encodeMap_path encodeSet_path
          encodeObject_path encodeTuple_path)
  qed
  then show ?thesis by simp
qed

theorem path_restored_on_success_witness:
  "fst (encode example_deps
     (Value False (StructV ''Point''
        [SliceV (int_t I) (Some [IntV I 1, IntV I 2]),
         MapV string_t string_t (Some [(StringV ''k'', StringV ''v'')])]))
     (cty_Object [(''x'', cty_Tuple [cty_Number, cty_Number]), (''y'', cty_Map cty_String), (''z'', cty_List cty_Bool)])
     [GetAttrStep ''root''])
   = Inr (ObjectVal [(''x'', TupleVal [NumberIntVal 1, NumberIntVal 2]),
                      (''y'', MapVal [(''k'', StringVal ''v'')]),
                      (''z'', NullVal (cty_List cty_Bool))])
   \<and> snd (encode example_deps
     (Value False (StructV ''Point''
        [SliceV (int_t I) (Some [IntV I 1, IntV I 2]),
         MapV string_t string_t (Some [(StringV ''k'', StringV ''v'')])]))
     (cty_Object [(''x'', cty_Tuple [cty_Number, cty_Number]), (''y'', cty_Map cty_String), (''z'', cty_List cty_Bool)])
     [GetAttrStep ''root'']) = [GetAttrStep ''root'']"
  using path_restored_on_success [of example_deps
     "Value False (StructV ''Point''
        [SliceV (int_t I) (Some [IntV I 1, IntV I 2]),
         MapV string_t string_t (Some [(StringV ''k'', StringV ''v'')])])"
     "cty_Object [(''x'', cty_Tuple [cty_Number, cty_Number]), (''y'', cty_Map cty_String), (''z'', cty_List cty_Bool)]"
     "[GetAttrStep ''root'']"
     "ObjectVal [(''x'', TupleVal [NumberIntVal 1, NumberIntVal 2]),
                      (''y'', MapVal [(''k'', StringVal ''v'')]),
                      (''z'', NullVal (cty_List cty_Bool))]"]
  by code_simp

subsection \<open>The path of an error\<close>

text \<open>
  The path in an error extends the path the function was called with: an error of a
  handler itself carries that path, an error of an element carries it followed by the
  step of the element, by induction on the target type.
\<close>

lemma tag_result_Inl [simp]:
  "(case r of Inl err \<Rightarrow> Inl err | Inr v \<Rightarrow> Inr (f v)) = Inl e \<longleftrightarrow> r = Inl e"
  by (cases r) simp_all

lemma scalar_error_path:
  "fst (encodeBool val path) = Inl (PathError p c) \<Longrightarrow> p = path"
  "fst (encodeNumber val path) = Inl (PathError p c) \<Longrightarrow> p = path"
  "fst (encodeString val path) = Inl (PathError p c) \<Longrightarrow> p = path"
  "fst (encodeDynamic val path) = Inl (PathError p c) \<Longrightarrow> p = path"
  "fst (encodeCapsule val ty path) = Inl (PathError p c) \<Longrightarrow> p = path"
  "fst (encodePassthruogh d val ty path) = Inl (PathError p c) \<Longrightarrow> p = path"
  by (simp_all add: encodeBool_def encodeNumber_def encodeString_def encodeDynamic_def
      encodeCapsule_def encodePassthruogh_def Let_def NewErrorf_def
      split: native.splits sum.splits if_splits)

lemma encodeList_error_prefix:
  assumes IH: "\<And>v q p c. fst (encode d v ety q) = Inl (PathError p c) \<Longrightarrow> prefix q p"
    and e: "fst (encodeList d val ety path) = Inl (PathError p c)"
  shows "prefix path p"
proof -
  let ?u = "unwrapPointer val"
  let ?st = "\<lambda>i. IndexStep (NumberIntVal (int i))"
  let ?body = "\<lambda>i path. fst (encode d (Index ?u i) ety path)"
  from e consider "p = path"
    | "fst (for_each (\<lambda>i. Some (?st i)) ?body [0..<Len ?u] (path @ [nil_step])) = Inl (PathError p c)"
    by (auto simp: encodeList.simps Let_def NewErrorf_def loop_result_fst
        split: if_splits sum.splits)
  then show ?thesis
  proof cases
    case 1
    then show ?thesis by simp
  next
    case 2
    from for_each_error [OF _ 2, of ?st]
    obtain i where "?body i (path @ [?st i]) = Inl (PathError p c)"
      by auto
    then have "prefix (path @ [?st i]) p" by (rule IH)
    then show ?thesis by (rule append_prefixD)
  qed
qed

lemma encodeMap_error_prefix:
  assumes IH: "\<And>v q p c. fst (encode d v ety q) = Inl (PathError p c) \<Longrightarrow> prefix q p"
    and e: "fst (encodeMap d val ety path) = Inl (PathError p c)"
  shows "prefix path p"
proof -
  let ?u = "unwrapPointer val"
  let ?st = "\<lambda>kv. IndexStep (StringVal (Value_String kv))"
  let ?body = "\<lambda>kv path.
                        let k = Value_String kv in
                        case fst (encode d (MapIndex ?u (ValueOf (Some (StringV k)))) ety path) of
                          Inl err \<Rightarrow> Inl err
                        | Inr v \<Rightarrow> Inr (k, v)"
  from e consider "p = path"
    | "fst (for_each (\<lambda>kv. Some (?st kv)) ?body (MapKeys ?u) (path @ [nil_step])) = Inl (PathError p c)"
    by (auto simp: encodeMap.simps Let_def NewErrorf_def loop_result_fst
        split: if_splits sum.splits)
  then show ?thesis
  proof cases
    case 1
    then show ?thesis by simp
  next
    case 2
    from for_each_error [OF _ 2, of ?st]
    obtain kv where "?body kv (path @ [?st kv]) = Inl (PathError p c)"
      by auto
    then have "fst (encode d (MapIndex ?u (ValueOf (Some (StringV (Value_String kv))))) ety (path @ [?st kv]))
                 = Inl (PathError p c)"
      by (simp add: Let_def)
    then have "prefix (path @ [?st kv]) p" by (rule IH)
    then show ?thesis by (rule append_prefixD)
  qed
qed

lemma encodeSet_error_prefix:
  assumes IH: "\<And>v q p c. fst (encode d v ety q) = Inl (PathError p c) \<Longrightarrow> prefix q p"
    and e: "fst (encodeSet d val ety path) = Inl (PathError p c)"
  shows "prefix path p"
proof -
  let ?u = "unwrapPointer val"
  from e consider "p = path"
    | "fst (for_each (\<lambda>i. None) (\<lambda>i path. fst (encode d (Index ?u i) ety path))
          [0..<Len ?u] path) = Inl (PathError p c)"
    | inVals where "fst (for_each (\<lambda>x. None) (\<lambda>x path. fst (encode d (ValueOf x) ety path))
          inVals path) = Inl (PathError p c)"
    by (auto simp: encodeSet.simps Let_def NewErrorf_def loop_result_fst
        split: if_splits sum.splits native.splits)
  then show ?thesis
  proof cases
    case 1
    then show ?thesis by simp
  next
    case 2
    from for_each_error_None [OF _ 2]
    obtain i where "fst (encode d (Index ?u i) ety path) = Inl (PathError p c)"
      by auto
    then show ?thesis by (rule IH)
  next
    case 3
    from for_each_error_None [OF _ 3]
    obtain x where "fst (encode d (ValueOf x) ety path) = Inl (PathError p c)"
      by auto
    then show ?thesis by (rule IH)
  qed
qed


lemma encodeObject_error_prefix:
  assumes IH: "\<And>k at v q p c. (k, at) \<in> set attrTypes \<Longrightarrow>
      fst (encode d v at q) = Inl (PathError p c) \<Longrightarrow> prefix q p"
    and e: "fst (encodeObject d val attrTypes path) = Inl (PathError p c)"
  shows "prefix path p"
proof -
  let ?u = "unwrapPointer val"
  let ?st = "\<lambda>(k, at). GetAttrStep k"
  let ?mbody = "\<lambda>(k, at) path.
                        if k \<notin> set (map Value_String (MapKeys ?u)) then Inr (k, NullVal at)
                        else
                          (case fst (encode d (MapIndex ?u (ValueOf (Some (StringV k)))) at path) of
                             Inl err \<Rightarrow> Inl err
                           | Inr v \<Rightarrow> Inr (k, v))"
  let ?sbody = "\<lambda>(k, at) path.
                     case rivertags_Get d (Value_Type ?u) k of
                       Some f \<Rightarrow>
                         if f < NumField ?u then
                           (case fst (encode d (Field ?u f) at path) of
                              Inl err \<Rightarrow> Inl err
                            | Inr v \<Rightarrow> Inr (k, v))
                         else Inl (Panic ''reflect: Field index out of range'')
                     | None \<Rightarrow> Inr (k, NullVal at)"
  from e consider "p = path"
    | "fst (for_each (\<lambda>(k, at). Some (GetAttrStep k)) ?mbody attrTypes (path @ [nil_step]))
         = Inl (PathError p c)"
    | "fst (for_each (\<lambda>(k, at). Some (GetAttrStep k)) ?sbody attrTypes (path @ [nil_step]))
         = Inl (PathError p c)"
    by (auto simp: encodeObject.simps Let_def NewErrorf_def loop_result_fst
        split: if_splits sum.splits)
  then show ?thesis
  proof cases
    case 1
    then show ?thesis by simp
  next
    case 2
    from for_each_error [OF _ 2, of ?st]
    have "\<exists>x\<in>set attrTypes. ?mbody x (path @ [?st x]) = Inl (PathError p c)"
      by (simp add: case_prod_beta)
    then obtain x where xm: "x \<in> set attrTypes"
      and xe: "?mbody x (path @ [?st x]) = Inl (PathError p c)"
      by blast
    obtain k at where x: "x = (k, at)" by (cases x)
    from xm x have m: "(k, at) \<in> set attrTypes" by simp
    from xe x have "?mbody (k, at) (path @ [GetAttrStep k]) = Inl (PathError p c)" by simp
    then have "fst (encode d (MapIndex ?u (ValueOf (Some (StringV k)))) at (path @ [GetAttrStep k]))
                 = Inl (PathError p c)"
      by (simp split: if_splits)
    then have "prefix (path @ [GetAttrStep k]) p" by (rule IH [OF m])
    then show ?thesis by (rule append_prefixD)
  next
    case 3
    from for_each_error [OF _ 3, of ?st]
    have "\<exists>x\<in>set attrTypes. ?sbody x (path @ [?st x]) = Inl (PathError p c)"
      by (simp add: case_prod_beta)
    then obtain x where xm: "x \<in> set attrTypes"
      and xe: "?sbody x (path @ [?st x]) = Inl (PathError p c)"
      by blast
    obtain k at where x: "x = (k, at)" by (cases x)
    from xm x have m: "(k, at) \<in> set attrTypes" by simp
    from xe x have "?sbody (k, at) (path @ [GetAttrStep k]) = Inl (PathError p c)" by simp
    then obtain f where "fst (encode d (Field ?u f) at (path @ [GetAttrStep k])) = Inl (PathError p c)"
      by (auto split: option.splits if_splits)
    then have "prefix (path @ [GetAttrStep k]) p" by (rule IH [OF m])
    then show ?thesis by (rule append_prefixD)
  qed
qed

lemma encodeTuple_error_prefix:
  assumes IH: "\<And>ety v q p c. ety \<in> set elemTypes \<Longrightarrow>
      fst (encode d v ety q) = Inl (PathError p c) \<Longrightarrow> prefix q p"
    and e: "fst (encodeTuple d val elemTypes path) = Inl (PathError p c)"
  shows "prefix path p"
proof -
  let ?u = "unwrapPointer val"
  let ?st = "\<lambda>(i, ety). IndexStep (NumberIntVal (int i))"
  from e consider "p = path"
    | "fst (for_each (\<lambda>(i, ety). Some (IndexStep (NumberIntVal (int i))))
             (\<lambda>(i, ety) path. fst (encode d (Index ?u i) ety path))
             (enumerate 0 elemTypes) (path @ [nil_step])) = Inl (PathError p c)"
    | "fst (for_each (\<lambda>(i, ety). Some (IndexStep (NumberIntVal (int i))))
             (\<lambda>(i, ety) path. fst (encode d (Field ?u i) ety path))
             (enumerate 0 elemTypes) (path @ [nil_step])) = Inl (PathError p c)"
    by (auto simp: encodeTuple.simps Let_def NewErrorf_def loop_result_fst
        split: if_splits sum.splits)
  then show ?thesis
  proof cases
    case 1
    then show ?thesis by simp
  next
    case 2
    from for_each_error [OF _ 2, of ?st]
    have "\<exists>x\<in>set (enumerate 0 elemTypes).
            fst (encode d (Index ?u (fst x)) (snd x) (path @ [?st x])) = Inl (PathError p c)"
      by (simp add: case_prod_beta)
    then obtain x where xm: "x \<in> set (enumerate 0 elemTypes)"
      and xe: "fst (encode d (Index ?u (fst x)) (snd x) (path @ [?st x])) = Inl (PathError p c)"
      by blast
    obtain i ety where x: "x = (i, ety)" by (cases x)
    from xm x have m: "(i, ety) \<in> set (enumerate 0 elemTypes)" by simp
    from xe x have enc: "fst (encode d (Index ?u i) ety (path @ [IndexStep (NumberIntVal (int i))]))
        = Inl (PathError p c)" by simp
    have "prefix (path @ [IndexStep (NumberIntVal (int i))]) p"
      by (rule IH [OF enumerate_elem [OF m] enc])
    then show ?thesis by (rule append_prefixD)
  next
    case 3
    from for_each_error [OF _ 3, of ?st]
    have "\<exists>x\<in>set (enumerate 0 elemTypes).
            fst (encode d (Field ?u (fst x)) (snd x) (path @ [?st x])) = Inl (PathError p c)"
      by (simp add: case_prod_beta)
    then obtain x where xm: "x \<in> set (enumerate 0 elemTypes)"
      and xe: "fst (encode d (Field ?u (fst x)) (snd x) (path @ [?st x])) = Inl (PathError p c)"
      by blast
    obtain i ety where x: "x = (i, ety)" by (cases x)
    from xm x have m: "(i, ety) \<in> set (enumerate 0 elemTypes)" by simp
    from xe x have enc: "fst (encode d (Field ?u i) ety (path @ [IndexStep (NumberIntVal (int i))]))
        = Inl (PathError p c)" by simp
    have "prefix (path @ [IndexStep (NumberIntVal (int i))]) p"
      by (rule IH [OF enumerate_elem [OF m] enc])
    then show ?thesis by (rule append_prefixD)
  qed
qed

lemma encode_error_prefix:
  "fst (encode d val ty path) = Inl (PathError p c) \<Longrightarrow> prefix path p"
proof (induction ty arbitrary: val path p c rule: measure_induct_rule [of size])
  case (less ty)
  show ?case
  proof (cases "val \<noteq> zero_Value \<and> AssignableTo (Value_Type val) valueType")
    case True
    with less.prems have "p = path"
      by (simp add: encode_then scalar_error_path)
    then show ?thesis by simp
  next
    case False
    note el = encode_else [OF False]
    show ?thesis
    proof (cases ty)
      case NilType
      with less.prems show ?thesis by (simp add: el NewErrorf_def)
    next
      case cty_Bool
      with less.prems have "p = path" by (simp add: el scalar_error_path)
      then show ?thesis by simp
    next
      case cty_Number
      with less.prems have "p = path" by (simp add: el scalar_error_path)
      then show ?thesis by simp
    next
      case cty_String
      with less.prems have "p = path" by (simp add: el scalar_error_path)
      then show ?thesis by simp
    next
      case DynamicPseudoType
      with less.prems have "p = path" by (simp add: el scalar_error_path)
      then show ?thesis by simp
    next
      case (cty_List ety)
      with less.prems have "fst (encodeList d val ety path) = Inl (PathError p c)"
        by (simp add: el)
      moreover have "\<And>v q p c. fst (encode d v ety q) = Inl (PathError p c) \<Longrightarrow> prefix q p"
        using less.IH [of ety] cty_List by simp
      ultimately show ?thesis by (rule encodeList_error_prefix [rotated])
    next
      case (cty_Map ety)
      with less.prems have "fst (encodeMap d val ety path) = Inl (PathError p c)"
        by (simp add: el)
      moreover have "\<And>v q p c. fst (encode d v ety q) = Inl (PathError p c) \<Longrightarrow> prefix q p"
        using less.IH [of ety] cty_Map by simp
      ultimately show ?thesis by (rule encodeMap_error_prefix [rotated])
    next
      case (cty_Set ety)
      with less.prems have "fst (encodeSet d val ety path) = Inl (PathError p c)"
        by (simp add: el)
      moreover have "\<And>v q p c. fst (encode d v ety q) = Inl (PathError p c) \<Longrightarrow> prefix q p"
        using less.IH [of ety] cty_Set by simp
      ultimately show ?thesis by (rule encodeSet_error_prefix [rotated])
    next
      case (cty_Object attrTypes)
      with less.prems have "fst (encodeObject d val attrTypes path) = Inl (PathError p c)"
        by (simp add: el)
      moreover have "\<And>k at v q p c. (k, at) \<in> set attrTypes \<Longrightarrow>
          fst (encode d v at q) = Inl (PathError p c) \<Longrightarrow> prefix q p"
        using less.IH size_Object_attr cty_Object by blast
      ultimately show ?thesis by (rule encodeObject_error_prefix [rotated])
    next
      case (cty_Tuple elemTypes)
      with less.prems have "fst (encodeTuple d val elemTypes path) = Inl (PathError p c)"
        by (simp add: el)
      moreover have "\<And>ety v q p c. ety \<in> set elemTypes \<Longrightarrow>
          fst (encode d v ety q) = Inl (PathError p c) \<Longrightarrow> prefix q p"
        using less.IH size_Tuple_elem cty_Tuple by blast
      ultimately show ?thesis by (rule encodeTuple_error_prefix [rotated])
    next
      case (cty_Capsule n t)
      with less.prems have "p = path" by (simp add: el scalar_error_path)
      then show ?thesis by simp
    qed
  qed
qed

subsection \<open>Lists\<close>

lemma last_step_update [simp]: "(path @ [s])[length path := s'] = path @ [s']"
  by simp






subsection \<open>Tuples\<close>

lemma enumerate_0_iff: "(i, x) \<in> set (enumerate 0 xs) \<longleftrightarrow> i < length xs \<and> x = xs ! i"
  by (auto simp: in_set_enumerate_eq)

lemma encodeTuple_slice_form:
  assumes "unwrapPointer val = Value a (SliceV t (Some xs))"
  shows "fst (encodeTuple d val elemTypes path) =
     (if length xs \<noteq> length elemTypes
      then Inl (PathError path (wrong_number_of_elements (length xs) (length elemTypes)))
      else if length elemTypes = 0 then Inr EmptyTupleVal
      else case fst (for_each (\<lambda>(i, ety). Some (IndexStep (NumberIntVal (int i))))
                  (\<lambda>(i, ety) path. fst (encode d (Value True (xs ! i)) ety path))
                  (enumerate 0 elemTypes) (path @ [nil_step])) of
             Inl err \<Rightarrow> Inl err
           | Inr vals \<Rightarrow> Inr (TupleVal vals))"
  using assms by (simp add: encodeTuple.simps Let_def loop_result_fst NewErrorf_def)

text \<open>
  Claim C4, as stated, fails in three ways. A slice of the right length still fails when
  an element does not encode (one string against a tuple of one boolean). A nil slice has
  length 0 and encodes to the typed null of a tuple type with one element type, without an
  error. An array is a native sequence, but \<^verbatim>\<open>encodeTuple\<close> has no case for it: of
  whatever length, it fails with the incompatible-kind cause, not with an arity mismatch.
\<close>

theorem tuple_arity_counterexample:
  "fst (encode example_deps (Value False (SliceV string_t (Some [StringV ''x''])))
         (cty_Tuple [cty_Bool]) [])
     = Inl (PathError [IndexStep (NumberIntVal 0)] (cant_convert_kind reflect_String cty_Bool))
   \<and> fst (encode example_deps (Value False (SliceV string_t None)) (cty_Tuple [cty_String]) [])
     = Inr (NullVal (cty_Tuple [cty_String]))
   \<and> fst (encode example_deps (Value False (ArrayV string_t [StringV ''x'', StringV ''y'']))
         (cty_Tuple [cty_String]) [])
     = Inl (PathError [] (cant_convert_kind reflect_Array (cty_Tuple [cty_String])))"
  by code_simp

text \<open>
  Claim C4, amended. For every non-nil native slice of length \<open>k\<close> encoded against a
  tuple type declaring \<open>m\<close> element types, the result is the arity-mismatch error at the
  current path, reporting \<open>k\<close> and \<open>m\<close>, if and only if \<open>k \<noteq> m\<close>; it does not depend
  on the elements, none of which is encoded before. When \<open>k = m\<close> the operation fails
  only with the error of the encoding of one of its elements.
\<close>

theorem tuple_arity:
  assumes "unwrapPointer val = Value a (SliceV t (Some xs))"
  shows "(fst (encode d val (cty_Tuple elemTypes) path)
            = Inl (PathError path (wrong_number_of_elements (length xs) (length elemTypes)))
          \<longleftrightarrow> length xs \<noteq> length elemTypes)
       \<and> (length xs = length elemTypes \<and> isl (fst (encode d val (cty_Tuple elemTypes) path)) \<longrightarrow>
           (\<exists>i\<in>{0..<length xs}.
              fst (encode d (Value True (xs ! i)) (elemTypes ! i)
                     (path @ [IndexStep (NumberIntVal (int i))]))
                = fst (encode d val (cty_Tuple elemTypes) path)))"
proof -
  let ?st = "\<lambda>(i, ety). IndexStep (NumberIntVal (int i))"
  let ?body = "\<lambda>(i, ety) path. fst (encode d (Value True (xs ! i)) ety path)"
  let ?loop = "for_each (\<lambda>(i, ety). Some (IndexStep (NumberIntVal (int i)))) ?body
                 (enumerate 0 elemTypes) (path @ [nil_step])"
  let ?res = "fst (encode d val (cty_Tuple elemTypes) path)"
  let ?arity = "PathError path (wrong_number_of_elements (length xs) (length elemTypes))"
  have et: "?res = fst (encodeTuple d val elemTypes path)"
    using assms by (subst encode_dispatch [of val "Value a (SliceV t (Some xs))"]) auto
  note form = encodeTuple_slice_form [OF assms, of d elemTypes path]
  have elem: "\<exists>i\<in>{0..<length xs}.
      fst (encode d (Value True (xs ! i)) (elemTypes ! i) (path @ [IndexStep (NumberIntVal (int i))])) = Inl e"
    if eq: "length xs = length elemTypes" and e: "?res = Inl e" for e
  proof -
    from eq e have "fst ?loop = Inl e"
      unfolding et form by (simp split: if_splits sum.splits add: EmptyTupleVal_def)
    from for_each_error [OF _ this, of ?st]
    have "\<exists>x\<in>set (enumerate 0 elemTypes). ?body x (path @ [?st x]) = Inl e"
      by (simp add: case_prod_beta)
    then obtain x where xm: "x \<in> set (enumerate 0 elemTypes)"
      and xe: "?body x (path @ [?st x]) = Inl e"
      by blast
    obtain i ety where x: "x = (i, ety)" by (cases x)
    from xm x eq have "i < length xs" and "ety = elemTypes ! i"
      by (simp_all add: enumerate_0_iff)
    with xe x show ?thesis by auto
  qed
  have "?res = Inl ?arity" if "length xs \<noteq> length elemTypes"
    using that unfolding et form by simp
  moreover have "?res \<noteq> Inl ?arity" if eq: "length xs = length elemTypes"
  proof
    assume "?res = Inl ?arity"
    from elem [OF eq this] obtain i where
      "fst (encode d (Value True (xs ! i)) (elemTypes ! i) (path @ [IndexStep (NumberIntVal (int i))]))
         = Inl ?arity"
      by blast
    then have "prefix (path @ [IndexStep (NumberIntVal (int i))]) path"
      by (rule encode_error_prefix)
    then show False by (simp add: prefix_def)
  qed
  moreover have "\<exists>i\<in>{0..<length xs}.
      fst (encode d (Value True (xs ! i)) (elemTypes ! i) (path @ [IndexStep (NumberIntVal (int i))])) = ?res"
    if "length xs = length elemTypes" and "isl ?res"
  proof -
    from that(2) obtain e where "?res = Inl e" by (cases ?res) simp_all
    with elem [OF that(1)] show ?thesis by simp
  qed
  ultimately show ?thesis by blast
qed

theorem tuple_arity_witness:
  "unwrapPointer (Value False (SliceV (int_t I) (Some [IntV I 1, IntV I 2, IntV I 3])))
     = Value False (SliceV (int_t I) (Some [IntV I 1, IntV I 2, IntV I 3]))
   \<and> length [IntV I 1, IntV I 2, IntV I 3] \<noteq> length [cty_Number, cty_String]
   \<and> fst (encode example_deps (Value False (SliceV (int_t I) (Some [IntV I 1, IntV I 2, IntV I 3])))
         (cty_Tuple [cty_Number, cty_String]) [])
       = Inl (PathError [] (wrong_number_of_elements 3 2))
   \<and> unwrapPointer (Value False (SliceV (int_t I) (Some [IntV I 1, IntV I 2])))
     = Value False (SliceV (int_t I) (Some [IntV I 1, IntV I 2]))
   \<and> length [IntV I 1, IntV I 2] = length [cty_Number, cty_String]
   \<and> isl (fst (encode example_deps (Value False (SliceV (int_t I) (Some [IntV I 1, IntV I 2])))
         (cty_Tuple [cty_Number, cty_String]) []))
   \<and> fst (encode example_deps (Value True (IntV I 2)) cty_String [IndexStep (NumberIntVal 1)])
       = fst (encode example_deps (Value False (SliceV (int_t I) (Some [IntV I 1, IntV I 2])))
         (cty_Tuple [cty_Number, cty_String]) [])"
  using tuple_arity [of "Value False (SliceV (int_t I) (Some [IntV I 1, IntV I 2, IntV I 3]))" False
      "int_t I" "[IntV I 1, IntV I 2, IntV I 3]" example_deps "[cty_Number, cty_String]" "[]"]
    tuple_arity [of "Value False (SliceV (int_t I) (Some [IntV I 1, IntV I 2]))" False
      "int_t I" "[IntV I 1, IntV I 2]" example_deps "[cty_Number, cty_String]" "[]"]
  by code_simp

subsection \<open>Objects\<close>

text \<open>
  Claim C5, as stated, fails: a value that is there need not be one the object handler
  accepts. Against the object type with no attributes a string fails with the
  incompatible-kind cause and a map with integer keys fails with the non-string-key
  cause.
\<close>

theorem empty_object_type_counterexample:
  "fst (encode example_deps (Value False (StringV ''x'')) (cty_Object []) [])
     = Inl (PathError [] (cant_convert_kind reflect_String (cty_Object [])))
   \<and> fst (encode example_deps (Value False (MapV (int_t I) string_t (Some [(IntV I 1, StringV ''x'')])))
        (cty_Object []) [])
     = Inl (PathError [] (map_key_type_must_be_string (int_t I)))"
  by code_simp

text \<open>
  Claim C5, amended. For the target object type with zero declared attributes and every
  native value that is not itself a \<^verbatim>\<open>cty.Value\<close> and that unwraps to a struct or to
  a non-nil mapping with string keys, \<^verbatim>\<open>encode\<close> returns the canonical empty-object
  value, whatever the fields or entries of the native value are.
\<close>

theorem empty_object_type:
  assumes "\<not> (val \<noteq> zero_Value \<and> AssignableTo (Value_Type val) valueType)"
    and "Kind (unwrapPointer val) = reflect_Struct
       \<or> (Kind (unwrapPointer val) = reflect_Map \<and> \<not> IsNil (unwrapPointer val)
          \<and> type_Kind (type_Key (Value_Type (unwrapPointer val))) = reflect_String)"
  shows "encode d val (cty_Object []) path = (Inr EmptyObjectVal, path)"
proof -
  have "encodeObject d val [] path = (Inr EmptyObjectVal, path)"
    using assms(2)
    by (auto simp: encodeObject.simps Let_def IsValid_iff_Kind)
  then show ?thesis
    by (simp add: encode_else [OF assms(1)])
qed

theorem empty_object_type_witness:
  "\<not> (Value False (PtrV (struct_t ''Point'') (Some (StructV ''Point'' [IntV I 1, IntV I 2]))) \<noteq> zero_Value
      \<and> AssignableTo (Value_Type (Value False (PtrV (struct_t ''Point'') (Some (StructV ''Point'' [IntV I 1, IntV I 2])))))
           valueType)
   \<and> Kind (unwrapPointer (Value False (PtrV (struct_t ''Point'') (Some (StructV ''Point'' [IntV I 1, IntV I 2])))))
       = reflect_Struct
   \<and> encode example_deps (Value False (PtrV (struct_t ''Point'') (Some (StructV ''Point'' [IntV I 1, IntV I 2]))))
       (cty_Object []) [] = (Inr EmptyObjectVal, [])"
  using empty_object_type [of "Value False (PtrV (struct_t ''Point'') (Some (StructV ''Point'' [IntV I 1, IntV I 2])))"
      example_deps "[]"]
  by code_simp









subsection \<open>Empty collections\<close>

text \<open>
  Claim C8. A non-nil slice of length zero or an array of length zero encodes to the empty
  list of a list type and to the empty set of a set type; a non-nil mapping with no
  entries encodes to the empty map of a map type, whatever its key type. These values are
  not null and differ from the typed null of their type.
\<close>

theorem empty_is_not_null:
  assumes "unwrapPointer val = Value a (SliceV t (Some [])) \<or> unwrapPointer val = Value a (ArrayV t [])"
    and "unwrapPointer mval = Value b (MapV kt et (Some []))"
  shows "encode d val (cty_List ety) path = (Inr (ListValEmpty ety), path)
       \<and> encode d val (cty_Set ety) path = (Inr (SetValEmpty ety), path)
       \<and> encode d mval (cty_Map ety) path = (Inr (MapValEmpty ety), path)
       \<and> \<not> IsNull (ListValEmpty ety) \<and> \<not> IsNull (SetValEmpty ety) \<and> \<not> IsNull (MapValEmpty ety)
       \<and> ListValEmpty ety \<noteq> NullVal (cty_List ety)
       \<and> SetValEmpty ety \<noteq> NullVal (cty_Set ety)
       \<and> MapValEmpty ety \<noteq> NullVal (cty_Map ety)"
proof -
  from assms(1) have s: "\<And>b v. unwrapPointer val \<noteq> Value b (CtyV v)" by auto
  have "encodeList d val ety path = (Inr (ListValEmpty ety), path)"
    using assms(1) by (auto simp: encodeList.simps Let_def)
  moreover have "encodeSet d val ety path = (Inr (SetValEmpty ety), path)"
    using assms(1) by (auto simp: encodeSet.simps Let_def)
  moreover have "encodeMap d mval ety path = (Inr (MapValEmpty ety), path)"
    using assms(2) by (simp add: encodeMap.simps Let_def)
  moreover have "encode d val (cty_List ety) path = encodeList d val ety path"
    and "encode d val (cty_Set ety) path = encodeSet d val ety path"
    by (simp_all add: encode_dispatch [OF refl s])
  moreover have "encode d mval (cty_Map ety) path = encodeMap d mval ety path"
    by (subst encode_dispatch [OF assms(2)]) simp_all
  ultimately show ?thesis
    by simp
qed

theorem empty_is_not_null_witness:
  "unwrapPointer (Value False (PtrV (slice_t string_t) (Some (SliceV string_t (Some [])))))
     = Value True (SliceV string_t (Some []))
   \<and> unwrapPointer (Value False (MapV (int_t I) string_t (Some [])))
     = Value False (MapV (int_t I) string_t (Some []))
   \<and> encode example_deps (Value False (PtrV (slice_t string_t) (Some (SliceV string_t (Some [])))))
       (cty_List cty_String) [] = (Inr (ListValEmpty cty_String), [])
   \<and> encode example_deps (Value False (PtrV (slice_t string_t) (Some (SliceV string_t (Some [])))))
       (cty_Set cty_String) [] = (Inr (SetValEmpty cty_String), [])
   \<and> encode example_deps (Value False (MapV (int_t I) string_t (Some [])))
       (cty_Map cty_String) [] = (Inr (MapValEmpty cty_String), [])
   \<and> encode example_deps (Value False (SliceV string_t None)) (cty_List cty_String) []
       = (Inr (NullVal (cty_List cty_String)), [])"
  using empty_is_not_null [of "Value False (PtrV (slice_t string_t) (Some (SliceV string_t (Some []))))"
      True string_t "Value False (MapV (int_t I) string_t (Some []))" False "int_t I" string_t
      example_deps cty_String "[]"]
  by code_simp

subsection \<open>Passthrough twice\<close>



end
